theory Spec2Isabelle
  imports Main "HOL-Library.Word"
begin

unbundle bit_operations_syntax

section \<open>Exceptions\<close>

text \<open>
  The exceptions of \<^verbatim>\<open>filesystem.py\<close> and of the libraries it calls, as values.
  \<open>NotAValidPath\<close> and \<open>NotAValidPermission\<close> are the two classes the module declares;
  \<open>OSError\<close> is raised by \<^verbatim>\<open>_grant_permission\<close> and \<^verbatim>\<open>_deny_permission\<close> around a failed
  read, and by \<^verbatim>\<open>os.mkdir\<close>; \<open>Win32Error\<close> stands for \<^verbatim>\<open>pywintypes.error\<close>, which every
  \<^verbatim>\<open>win32security\<close> call raises when the system call behind it fails; \<open>TypeError\<close> and
  \<open>AttributeError\<close> are Python's own.
\<close>

datatype error =
  NotAValidPath | NotAValidPermission | OSError | Win32Error | TypeError | AttributeError

section \<open>The constants of \<^verbatim>\<open>ntsecuritycon\<close> and \<^verbatim>\<open>win32security\<close>\<close>

text \<open>
  Access masks are the 32-bit \<^verbatim>\<open>ACCESS_MASK\<close> values of the Windows SDK, which is what an
  access entry stores. The flag values of \<^verbatim>\<open>win32security\<close> are Python integers;
  \<^verbatim>\<open>PROTECTED_DACL_SECURITY_INFORMATION\<close> is the negative integer whose low 32 bits are
  \<^verbatim>\<open>0x80000000\<close> (\<^verbatim>\<open>tests/test_filesystem.py\<close> expects \<^verbatim>\<open>-2147483644\<close> and \<^verbatim>\<open>536870916\<close>
  from \<^verbatim>\<open>_set_flags\<close>).
\<close>

definition FILE_GENERIC_READ :: "32 word" where "FILE_GENERIC_READ = 0x120089"
definition FILE_GENERIC_WRITE :: "32 word" where "FILE_GENERIC_WRITE = 0x120116"
definition FILE_GENERIC_EXECUTE :: "32 word" where "FILE_GENERIC_EXECUTE = 0x1200A0"
definition FILE_ALL_ACCESS :: "32 word" where "FILE_ALL_ACCESS = 0x1F01FF"
definition GENERIC_READ :: "32 word" where "GENERIC_READ = 0x80000000"
definition GENERIC_WRITE :: "32 word" where "GENERIC_WRITE = 0x40000000"
definition con_DELETE :: "32 word" where "con_DELETE = 0x10000"

definition CONTAINER_INHERIT_ACE :: int where "CONTAINER_INHERIT_ACE = 2"
definition OBJECT_INHERIT_ACE :: int where "OBJECT_INHERIT_ACE = 1"
definition NO_INHERITANCE :: int where "NO_INHERITANCE = 0"
definition INHERITED_ACE :: int where "INHERITED_ACE = 16"
definition DACL_SECURITY_INFORMATION :: int where "DACL_SECURITY_INFORMATION = 4"
definition PROTECTED_DACL_SECURITY_INFORMATION :: int where
  "PROTECTED_DACL_SECURITY_INFORMATION = - 2147483648"
definition UNPROTECTED_DACL_SECURITY_INFORMATION :: int where
  "UNPROTECTED_DACL_SECURITY_INFORMATION = 536870912"

section \<open>\<^verbatim>\<open>constants.py\<close>\<close>

text \<open>A security identifier, in its string form (\<^verbatim>\<open>S-1-5-18\<close>).\<close>

type_synonym sid = string

definition NT_AUTHORITY :: sid where "NT_AUTHORITY = ''S-1-5-18''"
definition ADMINS :: sid where "ADMINS = ''S-1-5-32-544''"
definition EVERYONE :: sid where "EVERYONE = ''S-1-1-0''"

datatype Permissions =
  READ | READ_WRITE | DELETE | MODIFY | FULL_CONTROL | MODIFY_PROTECTED | FULL_DENY

text \<open>
  \<^verbatim>\<open>Permissions.value\<close>. The two \<^verbatim>\<open>auto()\<close> members follow \<^verbatim>\<open>FULL_CONTROL\<close>, the last
  and largest value before them, so they receive \<^verbatim>\<open>FILE_ALL_ACCESS + 1\<close> and
  \<^verbatim>\<open>FILE_ALL_ACCESS + 2\<close>.
\<close>

fun perm_value :: "Permissions \<Rightarrow> 32 word" where
  "perm_value READ = FILE_GENERIC_READ"
| "perm_value READ_WRITE = FILE_GENERIC_READ OR FILE_GENERIC_WRITE"
| "perm_value DELETE = con_DELETE"
| "perm_value MODIFY = GENERIC_READ OR GENERIC_WRITE OR FILE_GENERIC_EXECUTE OR con_DELETE"
| "perm_value FULL_CONTROL = FILE_ALL_ACCESS"
| "perm_value MODIFY_PROTECTED = FILE_ALL_ACCESS + 1"
| "perm_value FULL_DENY = FILE_ALL_ACCESS + 2"

section \<open>\<^verbatim>\<open>Directory._set_flags\<close>\<close>

definition priv_set_flags :: "bool \<Rightarrow> bool \<Rightarrow> int \<times> int" where
  "priv_set_flags inherits propagation =
     (let propagation_flags =
            (if propagation then CONTAINER_INHERIT_ACE OR OBJECT_INHERIT_ACE
             else NO_INHERITANCE);
          security_information_flags = DACL_SECURITY_INFORMATION;
          security_information_flags =
            (if \<not> inherits
             then security_information_flags OR PROTECTED_DACL_SECURITY_INFORMATION
             else security_information_flags OR UNPROTECTED_DACL_SECURITY_INFORMATION)
      in (security_information_flags, propagation_flags))"

section \<open>Security descriptors\<close>

datatype ace_kind = ACCESS_ALLOWED | ACCESS_DENIED

text \<open>
  An access entry as \<^verbatim>\<open>PyACL.GetAce\<close> returns it: kind and flags, the access mask, and
  the identifier last (\<^verbatim>\<open>ace[-1]\<close>).
\<close>

record ace =
  ace_type :: ace_kind
  ace_flags :: int
  ace_mask :: "32 word"
  ace_sid :: sid

text \<open>
  The discretionary list of one object, with the control bit that protects it against
  entries flowing down from the parent.
\<close>

record security_descriptor =
  sd_protected :: bool
  sd_dacl :: "ace list"

text \<open>
  The security metadata on disk: the objects that exist, each with its descriptor. The
  engine keeps no cache, so this store is the whole state.
\<close>

type_synonym store = "string \<rightharpoonup> security_descriptor"

text \<open>A call either raises or returns, and leaves a store behind in both cases.\<close>

type_synonym 'a io = "store \<Rightarrow> (error + 'a) \<times> store"

definition io_return :: "'a \<Rightarrow> 'a io" where
  "io_return a = (\<lambda>s. (Inr a, s))"

definition io_raise :: "error \<Rightarrow> 'a io" where
  "io_raise e = (\<lambda>s. (Inl e, s))"

definition io_bind :: "'a io \<Rightarrow> ('a \<Rightarrow> 'b io) \<Rightarrow> 'b io" where
  "io_bind m f = (\<lambda>s. case m s of (Inl e, s') \<Rightarrow> (Inl e, s') | (Inr a, s') \<Rightarrow> f a s')"

text \<open>A \<^verbatim>\<open>for\<close> loop whose body is run for its effect; the first exception ends it.\<close>

fun for_each :: "('a \<Rightarrow> 'b io) \<Rightarrow> 'a list \<Rightarrow> unit io" where
  "for_each body [] = io_return ()"
| "for_each body (x # xs) = io_bind (body x) (\<lambda>_. for_each body xs)"

section \<open>The operating system\<close>

text \<open>
  What the directory tree \<^verbatim>\<open>os.walk\<close> finds below a directory: its sub-directories,
  each with its own contents, and its file names, in the order the system lists them.
\<close>

datatype dtree = Node "(string \<times> dtree) list" "string list"

text \<open>An account as \<^verbatim>\<open>LookupAccountSid\<close> reports it: name, domain and type.\<close>

datatype account = Account string string nat

text \<open>
  The parts of the system the module reads and never changes: the account database, the
  path functions of \<^verbatim>\<open>os.path\<close>, the contents of the directories, and what \<^verbatim>\<open>os.mkdir\<close>
  does for a path that does not exist yet (\<open>None\<close> when the system refuses, otherwise
  the descriptor the new directory is born with). A lookup that finds no mapping raises
  in \<^verbatim>\<open>win32security\<close>; here it is \<open>None\<close>. The last field tells the interpreter
  apart: from Python 3.12 on the membership test of an enumeration accepts the values
  of its members.
\<close>

record os_env =
  LookupAccountSid :: "sid \<Rightarrow> account option"
  LookupAccountName :: "string \<Rightarrow> sid option"
  os_path_abspath :: "string \<Rightarrow> string"
  os_path_join :: "string \<Rightarrow> string \<Rightarrow> string"
  os_listing :: "string \<Rightarrow> dtree option"
  os_mkdir :: "string \<Rightarrow> store \<Rightarrow> security_descriptor option"
  enum_accepts_values :: bool

text \<open>
  \<^verbatim>\<open>os.walk\<close>, top-down: one triple (directory, sub-directory names, file names) for
  the directory itself, then the triples of each sub-directory in turn.
\<close>

fun walk :: "(string \<Rightarrow> string \<Rightarrow> string) \<Rightarrow> string \<Rightarrow> dtree
    \<Rightarrow> (string \<times> string list \<times> string list) list" where
  "walk join_path dir_name (Node dirs files) =
     (dir_name, map fst dirs, files) #
     concat (map (\<lambda>d. walk join_path (join_path dir_name (fst d)) (snd d)) dirs)"

definition os_walk :: "os_env \<Rightarrow> string \<Rightarrow> (string \<times> string list \<times> string list) list" where
  "os_walk env root =
     (case os_listing env root of None \<Rightarrow> [] | Some t \<Rightarrow> walk (os_path_join env) root t)"

text \<open>
  \<^verbatim>\<open>GetFileSecurity\<close> and \<^verbatim>\<open>GetNamedSecurityInfo\<close> read the descriptor of an existing object
  and fail on a missing one.
\<close>

definition GetFileSecurity :: "string \<Rightarrow> security_descriptor io" where
  "GetFileSecurity path =
     (\<lambda>s. case s path of None \<Rightarrow> (Inl Win32Error, s) | Some sd \<Rightarrow> (Inr sd, s))"

definition GetNamedSecurityInfo :: "string \<Rightarrow> security_descriptor io" where
  "GetNamedSecurityInfo path =
     (\<lambda>s. case s path of None \<Rightarrow> (Inl Win32Error, s) | Some sd \<Rightarrow> (Inr sd, s))"

text \<open>
  \<^verbatim>\<open>SetFileSecurity(path, DACL_SECURITY_INFORMATION, sd)\<close> stores the discretionary list of
  the descriptor it is given. The call names no protection bit, and both callers hand
  over the descriptor they have just read from the same object, so the protection on
  disk stays what it was.
\<close>

definition SetFileSecurity :: "string \<Rightarrow> security_descriptor \<Rightarrow> unit io" where
  "SetFileSecurity path sd =
     (\<lambda>s. case s path of
             None \<Rightarrow> (Inl Win32Error, s)
           | Some old \<Rightarrow> (Inr (), s(path \<mapsto> old\<lparr>sd_dacl := sd_dacl sd\<rparr>)))"

text \<open>
  \<^verbatim>\<open>SetNamedSecurityInfo(path, SE_FILE_OBJECT, flags, None, None, dacl, None)\<close> stores the
  list and, when the flags carry one of the two protection bits, sets or clears the
  protection of the object. Entries are stored on the object named; what the system
  later derives from them for its children is not part of the descriptor of the object.
\<close>

definition SetNamedSecurityInfo :: "string \<Rightarrow> int \<Rightarrow> ace list \<Rightarrow> unit io" where
  "SetNamedSecurityInfo path flags dacl =
     (\<lambda>s. case s path of
             None \<Rightarrow> (Inl Win32Error, s)
           | Some old \<Rightarrow>
               (Inr (),
                s(path \<mapsto> \<lparr>sd_protected =
                              (if flags AND PROTECTED_DACL_SECURITY_INFORMATION \<noteq> 0 then True
                               else if flags AND UNPROTECTED_DACL_SECURITY_INFORMATION \<noteq> 0
                               then False
                               else sd_protected old),
                            sd_dacl = dacl\<rparr>)))"

text \<open>
  \<^verbatim>\<open>PyACL.AddAccessAllowedAceEx\<close> and \<^verbatim>\<open>PyACL.AddAccessDeniedAceEx\<close> add the entry and put
  the list into the preferred order: entries set on the object itself before inherited
  ones, and among the former the denials first. The order within each group is kept.
  (\<^verbatim>\<open>tests/test_filesystem.py\<close>: an allowed entry lands behind the two baseline entries, a
  denied one in front of them.)
\<close>

definition is_inherited :: "ace \<Rightarrow> bool" where
  "is_inherited a = (ace_flags a AND INHERITED_ACE \<noteq> 0)"

definition reorder :: "ace list \<Rightarrow> ace list" where
  "reorder dacl =
     filter (\<lambda>a. \<not> is_inherited a \<and> ace_type a = ACCESS_DENIED) dacl @
     filter (\<lambda>a. \<not> is_inherited a \<and> ace_type a = ACCESS_ALLOWED) dacl @
     filter is_inherited dacl"

definition AddAccessAllowedAceEx :: "ace list \<Rightarrow> int \<Rightarrow> 32 word \<Rightarrow> sid \<Rightarrow> ace list" where
  "AddAccessAllowedAceEx dacl flags access user =
     reorder (dacl @ [\<lparr>ace_type = ACCESS_ALLOWED, ace_flags = flags, ace_mask = access,
                       ace_sid = user\<rparr>])"

definition AddAccessDeniedAceEx :: "ace list \<Rightarrow> int \<Rightarrow> 32 word \<Rightarrow> sid \<Rightarrow> ace list" where
  "AddAccessDeniedAceEx dacl flags access user =
     reorder (dacl @ [\<lparr>ace_type = ACCESS_DENIED, ace_flags = flags, ace_mask = access,
                       ace_sid = user\<rparr>])"

text \<open>\<^verbatim>\<open>PyACL.DeleteAce(i)\<close> removes the entry at index \<open>i\<close>.\<close>

definition DeleteAce :: "ace list \<Rightarrow> nat \<Rightarrow> ace list" where
  "DeleteAce dacl i = take i dacl @ drop (Suc i) dacl"

section \<open>\<^verbatim>\<open>filesystem.py\<close>\<close>

definition file_or_dir_exists :: "string \<Rightarrow> store \<Rightarrow> bool" where
  "file_or_dir_exists path s = (path \<in> dom s)"

text \<open>
  A Python value that may reach a parameter annotated \<^verbatim>\<open>str\<close>: a string, or something
  else (\<^verbatim>\<open>bytes\<close>, \<^verbatim>\<open>None\<close>, a number).
\<close>

datatype pyval = Str string | Bytes string | NoneVal | IntVal int

text \<open>
  The object: its one attribute \<^verbatim>\<open>_path\<close>, absent until the first assignment in
  \<^verbatim>\<open>__init__\<close>.
\<close>

record Directory =
  priv_path :: "string option"

text \<open>The getter and the setter of the property \<^verbatim>\<open>path\<close>.\<close>

definition path :: "Directory \<Rightarrow> error + string" where
  "path self = (case priv_path self of None \<Rightarrow> Inl AttributeError | Some p \<Rightarrow> Inr p)"

definition path_setter :: "Directory \<Rightarrow> pyval \<Rightarrow> (error + unit) \<times> Directory" where
  "path_setter self new_path =
     (case new_path of
        Str p \<Rightarrow> (Inr (), self\<lparr>priv_path := Some p\<rparr>)
      | _ \<Rightarrow> (Inl NotAValidPath, self))"

text \<open>\<^verbatim>\<open>create_dir\<close> is \<^verbatim>\<open>os.mkdir\<close>: it fails on a path that exists.\<close>

definition create_dir :: "os_env \<Rightarrow> string \<Rightarrow> unit io" where
  "create_dir env p =
     (\<lambda>s. if p \<in> dom s then (Inl OSError, s)
          else case os_mkdir env p s of
                 None \<Rightarrow> (Inl OSError, s)
               | Some sd \<Rightarrow> (Inr (), s(p \<mapsto> sd)))"

text \<open>
  \<^verbatim>\<open>list_subdirectories_recurs\<close>: the paths the generator yields, in order. For every
  triple of the walk, the sub-directories, then the files.
\<close>

definition list_subdirectories_recurs :: "os_env \<Rightarrow> string \<Rightarrow> string list" where
  "list_subdirectories_recurs env root =
     concat (map (\<lambda>(dir_name, dir_names, file_names).
                    map (\<lambda>sub_dir_name.
                           os_path_abspath env (os_path_join env dir_name sub_dir_name))
                        dir_names @
                    map (\<lambda>filename.
                           os_path_abspath env (os_path_join env dir_name filename))
                        file_names)
                 (os_walk env root))"

text \<open>
  The value of the variable \<^verbatim>\<open>targets\<close>: a list, which every \<^verbatim>\<open>for\<close> loop reads from its
  start, or a generator, which hands out each path once and is empty afterwards.
\<close>

datatype targets = PyList "string list" | Generator "string list"

fun iterate :: "targets \<Rightarrow> string list \<times> targets" where
  "iterate (PyList xs) = (xs, PyList xs)"
| "iterate (Generator xs) = (xs, Generator [])"

text \<open>\<^verbatim>\<open>_reset_permissions\<close>\<close>

definition priv_reset_permissions :: "string \<Rightarrow> security_descriptor io" where
  "priv_reset_permissions p =
     io_bind (GetFileSecurity p) (\<lambda>sd.
       let propagation_flags = snd (priv_set_flags False True);
           dacl = [];
           dacl = AddAccessAllowedAceEx dacl propagation_flags FILE_ALL_ACCESS NT_AUTHORITY;
           dacl = AddAccessAllowedAceEx dacl propagation_flags FILE_ALL_ACCESS ADMINS;
           sd = sd\<lparr>sd_dacl := dacl\<rparr>
       in io_bind (SetFileSecurity p sd) (\<lambda>_. io_return sd))"

text \<open>\<^verbatim>\<open>reset_permissions\<close>\<close>

definition reset_permissions :: "os_env \<Rightarrow> Directory \<Rightarrow> bool \<Rightarrow> unit io" where
  "reset_permissions env self recursive =
     (case path self of
        Inl e \<Rightarrow> io_raise e
      | Inr root \<Rightarrow>
          let targets = PyList [root];
              targets = (if recursive then Generator (list_subdirectories_recurs env root)
                         else targets)
          in for_each priv_reset_permissions (fst (iterate targets)))"

text \<open>
  The \<^verbatim>\<open>while\<close> loop of \<^verbatim>\<open>reset_user_permissions\<close>, on the index, the count and the list.
  \<^verbatim>\<open>GetAce\<close> returns a tuple, so the identifier is its last component; an index outside
  the list would raise. Both identifiers are resolved to accounts in every round and
  the accounts compared; a lookup that fails ends the call before anything is written.
\<close>

function strip_loop :: "os_env \<Rightarrow> sid \<Rightarrow> nat \<Rightarrow> nat \<Rightarrow> ace list \<Rightarrow> error + ace list" where
  "strip_loop env user_or_group i ace_count dacl =
     (if i < ace_count then
        (if i < length dacl then
           (case LookupAccountSid env (ace_sid (dacl ! i)) of
              None \<Rightarrow> Inl Win32Error
            | Some user \<Rightarrow>
                (case LookupAccountSid env user_or_group of
                   None \<Rightarrow> Inl Win32Error
                 | Some user_to_delete \<Rightarrow>
                     if user = user_to_delete
                     then strip_loop env user_or_group i (ace_count - 1) (DeleteAce dacl i)
                     else strip_loop env user_or_group (i + 1) ace_count dacl))
         else Inl Win32Error)
      else Inr dacl)"
  by pat_completeness auto
termination
  by (relation "measure (\<lambda>(env, user_or_group, i, ace_count, dacl). ace_count - i)") auto

declare strip_loop.simps [simp del]

definition reset_user_permissions :: "os_env \<Rightarrow> string \<Rightarrow> sid \<Rightarrow> security_descriptor io" where
  "reset_user_permissions env p user_or_group =
     io_bind (GetFileSecurity p) (\<lambda>sd.
       let dacl = sd_dacl sd; ace_count = length dacl
       in case strip_loop env user_or_group 0 ace_count dacl of
            Inl e \<Rightarrow> io_raise e
          | Inr dacl \<Rightarrow>
              let sd = sd\<lparr>sd_dacl := dacl\<rparr>
              in io_bind (SetFileSecurity p sd) (\<lambda>_. io_return sd))"

text \<open>
  What a caller may pass where a level is expected: a member of the enumeration; a value
  that is no member but is the value of one (the integer \<^verbatim>\<open>65536\<close> for \<open>DELETE\<close>); or
  anything else, \<^verbatim>\<open>None\<close> included.
\<close>

datatype level_arg = Member Permissions | RawValue Permissions | NotALevel

text \<open>\<^verbatim>\<open>permissions.value\<close>: only a member has the attribute.\<close>

definition level_value :: "level_arg \<Rightarrow> error + 32 word" where
  "level_value permissions =
     (case permissions of
        Member m \<Rightarrow> Inr (perm_value m)
      | _ \<Rightarrow> Inl AttributeError)"

text \<open>
  \<^verbatim>\<open>permissions not in Permissions\<close>. Up to Python 3.11 the test raises \<^verbatim>\<open>TypeError\<close> for
  a value that is no member of an enumeration; from Python 3.12 on it answers for every
  value, and counts the value of a member as contained, like the member.
\<close>

definition not_in_Permissions :: "os_env \<Rightarrow> level_arg \<Rightarrow> error + bool" where
  "not_in_Permissions env permissions =
     (case permissions of
        Member m \<Rightarrow> Inr False
      | RawValue m \<Rightarrow> if enum_accepts_values env then Inr False else Inl TypeError
      | NotALevel \<Rightarrow> if enum_accepts_values env then Inr True else Inl TypeError)"

text \<open>
  \<^verbatim>\<open>_grant_permission\<close> and \<^verbatim>\<open>_deny_permission\<close>. The descriptor is read first; the value of
  the level is taken when the arguments of the call that adds the entry are evaluated.
\<close>

definition read_security :: "string \<Rightarrow> security_descriptor io" where
  "read_security p =
     (\<lambda>s. case GetNamedSecurityInfo p s of
             (Inl e, s') \<Rightarrow> (Inl OSError, s')
           | (Inr sd, s') \<Rightarrow> (Inr sd, s'))"

definition priv_grant_permission ::
    "sid \<Rightarrow> string \<Rightarrow> level_arg \<Rightarrow> bool \<Rightarrow> bool \<Rightarrow> security_descriptor io" where
  "priv_grant_permission user_or_group p permissions inherits propagation =
     (let (security_information_flags, propagation_flags) =
            priv_set_flags inherits propagation
      in io_bind (read_security p) (\<lambda>sd.
           let dacl = sd_dacl sd
           in case level_value permissions of
                Inl e \<Rightarrow> io_raise e
              | Inr access \<Rightarrow>
                  let dacl = AddAccessAllowedAceEx dacl propagation_flags access user_or_group;
                      sd = sd\<lparr>sd_dacl := dacl\<rparr>
                  in io_bind (SetNamedSecurityInfo p security_information_flags dacl)
                       (\<lambda>_. io_return sd)))"

definition priv_deny_permission ::
    "sid \<Rightarrow> string \<Rightarrow> level_arg \<Rightarrow> bool \<Rightarrow> bool \<Rightarrow> security_descriptor io" where
  "priv_deny_permission user_or_group p permissions inherits propagation =
     (let (security_information_flags, propagation_flags) =
            priv_set_flags inherits propagation
      in io_bind (read_security p) (\<lambda>sd.
           let dacl = sd_dacl sd
           in case level_value permissions of
                Inl e \<Rightarrow> io_raise e
              | Inr access \<Rightarrow>
                  let dacl = AddAccessDeniedAceEx dacl propagation_flags access user_or_group;
                      sd = sd\<lparr>sd_dacl := dacl\<rparr>
                  in io_bind (SetNamedSecurityInfo p security_information_flags dacl)
                       (\<lambda>_. io_return sd)))"

definition priv_get_user_or_group_pysid :: "os_env \<Rightarrow> string \<Rightarrow> sid io" where
  "priv_get_user_or_group_pysid env user_or_group =
     (case LookupAccountName env user_or_group of
        None \<Rightarrow> io_raise Win32Error
      | Some s \<Rightarrow> io_return s)"

text \<open>
  \<^verbatim>\<open>give_permission\<close>. A \<^verbatim>\<open>TypeError\<close> of the membership test is caught and turned into
  \<^verbatim>\<open>NotAValidPermission\<close>, which is also raised for a value the test refuses and for the
  member \<open>DELETE\<close>. The comparisons with \<^verbatim>\<open>is\<close> hold for the member itself only, so a raw
  value that passes the test goes to the last branch. The variable \<^verbatim>\<open>targets\<close> is read
  by two loops, one after the other.
\<close>

definition give_permission ::
    "os_env \<Rightarrow> Directory \<Rightarrow> string \<Rightarrow> level_arg \<Rightarrow> bool \<Rightarrow> unit io" where
  "give_permission env self user_or_group permissions recursive =
     (case not_in_Permissions env permissions of
        Inl e \<Rightarrow> io_raise NotAValidPermission
      | Inr not_in \<Rightarrow>
          if not_in \<or> permissions = Member DELETE then io_raise NotAValidPermission
          else
          (case path self of
             Inl e \<Rightarrow> io_raise e
           | Inr root \<Rightarrow>
               let targets = PyList [root];
                   targets = (if recursive
                              then Generator (list_subdirectories_recurs env root)
                              else targets)
               in io_bind (priv_get_user_or_group_pysid env user_or_group)
                    (\<lambda>user_or_group_sid.
                       let (first_pass, targets) = iterate targets
                       in io_bind
                            (for_each (\<lambda>target.
                               reset_user_permissions env target user_or_group_sid) first_pass)
                            (\<lambda>_.
                               let (second_pass, targets) = iterate targets
                               in if permissions = Member MODIFY_PROTECTED then
                                    io_bind
                                      (for_each (\<lambda>target.
                                         priv_grant_permission user_or_group_sid target
                                           (Member MODIFY) True True) second_pass)
                                      (\<lambda>_. io_bind
                                              (priv_deny_permission user_or_group_sid root
                                                 (Member DELETE) True False)
                                              (\<lambda>_. io_return ()))
                                  else if permissions = Member FULL_DENY then
                                    for_each (\<lambda>target.
                                      priv_deny_permission user_or_group_sid target
                                        (Member FULL_CONTROL) True True) second_pass
                                  else
                                    for_each (\<lambda>target.
                                      priv_grant_permission user_or_group_sid target permissions
                                        True True) second_pass))))"

text \<open>
  \<^verbatim>\<open>__init__\<close>. \<^verbatim>\<open>os.path.abspath\<close> returns a string for a string and bytes for bytes, and
  raises \<^verbatim>\<open>TypeError\<close> for anything that is no path.
\<close>

definition abspath :: "os_env \<Rightarrow> pyval \<Rightarrow> error + pyval" where
  "abspath env v =
     (case v of
        Str p \<Rightarrow> Inr (Str (os_path_abspath env p))
      | Bytes b \<Rightarrow> Inr (Bytes (os_path_abspath env b))
      | _ \<Rightarrow> Inl TypeError)"

definition Directory_init :: "os_env \<Rightarrow> pyval \<Rightarrow> bool \<Rightarrow> Directory io" where
  "Directory_init env path_to_dir reset_perms =
     (case abspath env path_to_dir of
        Inl e \<Rightarrow> io_raise e
      | Inr v \<Rightarrow>
          (case path_setter \<lparr>priv_path = None\<rparr> v of
             (Inl e, _) \<Rightarrow> io_raise e
           | (Inr _, self) \<Rightarrow>
               (case path self of
                  Inl e \<Rightarrow> io_raise e
                | Inr p \<Rightarrow>
                    (\<lambda>s. io_bind
                           (if \<not> file_or_dir_exists p s then create_dir env p
                            else io_return ())
                           (\<lambda>_. io_bind
                                   (if reset_perms then reset_permissions env self False
                                    else io_return ())
                                   (\<lambda>_. io_return self)) s))))"

section \<open>Vocabulary of the statements\<close>

text \<open>
  An entry matches a principal when \<^verbatim>\<open>reset_user_permissions\<close> finds both identifiers
  resolved to the same account.
\<close>

definition matches :: "os_env \<Rightarrow> sid \<Rightarrow> ace \<Rightarrow> bool" where
  "matches env user a = (LookupAccountSid env (ace_sid a) = LookupAccountSid env user)"

definition entries_for :: "os_env \<Rightarrow> sid \<Rightarrow> ace list \<Rightarrow> ace list" where
  "entries_for env user dacl = filter (matches env user) dacl"

definition stripped :: "os_env \<Rightarrow> sid \<Rightarrow> ace list \<Rightarrow> ace list" where
  "stripped env user dacl = filter (\<lambda>a. \<not> matches env user a) dacl"

text \<open>Every identifier the loop looks up has an account.\<close>

definition all_resolve :: "os_env \<Rightarrow> sid \<Rightarrow> ace list \<Rightarrow> bool" where
  "all_resolve env user dacl =
     (LookupAccountSid env user \<noteq> None \<and>
      list_all (\<lambda>a. LookupAccountSid env (ace_sid a) \<noteq> None) dacl)"

definition strip_succeeds :: "os_env \<Rightarrow> sid \<Rightarrow> ace list \<Rightarrow> bool" where
  "strip_succeeds env user dacl = (dacl = [] \<or> all_resolve env user dacl)"

definition allowed :: "int \<Rightarrow> 32 word \<Rightarrow> sid \<Rightarrow> ace" where
  "allowed flags access user =
     \<lparr>ace_type = ACCESS_ALLOWED, ace_flags = flags, ace_mask = access, ace_sid = user\<rparr>"

definition denied :: "int \<Rightarrow> 32 word \<Rightarrow> sid \<Rightarrow> ace" where
  "denied flags access user =
     \<lparr>ace_type = ACCESS_DENIED, ace_flags = flags, ace_mask = access, ace_sid = user\<rparr>"

section \<open>A sample system\<close>

text \<open>
  A small system on which the statements below are run: the two administrative accounts,
  the group of everyone, and a group \<open>students\<close> that was migrated from another domain,
  so that its old identifier resolves to the same account as its new one. One identifier
  belongs to an account that was deleted and resolves to nothing. The directory
  \<^verbatim>\<open>C:/a\<close> holds \<^verbatim>\<open>1.txt\<close>, \<^verbatim>\<open>2.txt\<close> and \<^verbatim>\<open>b/3.txt\<close>. There is no directory
  \<^verbatim>\<open>C:/missing\<close>, so \<^verbatim>\<open>os.mkdir\<close> refuses \<^verbatim>\<open>C:/missing/new\<close>. The interpreter is older
  than Python 3.12.
\<close>

definition students_sid :: sid where "students_sid = ''S-1-5-21-1-1105''"
definition students_old_sid :: sid where "students_old_sid = ''S-1-5-21-2-2208''"
definition deleted_sid :: sid where "deleted_sid = ''S-1-5-21-1-1999''"

definition example_accounts :: "sid \<Rightarrow> account option" where
  "example_accounts s =
     (if s = NT_AUTHORITY then Some (Account ''SYSTEM'' ''NT AUTHORITY'' 5)
      else if s = ADMINS then Some (Account ''Administrators'' ''BUILTIN'' 4)
      else if s = EVERYONE then Some (Account ''Everyone'' [] 5)
      else if s = students_sid then Some (Account ''students'' ''CORP'' 2)
      else if s = students_old_sid then Some (Account ''students'' ''CORP'' 2)
      else None)"

definition example_names :: "string \<Rightarrow> sid option" where
  "example_names n =
     (if n = ''students'' then Some students_sid
      else if n = ''Everyone'' then Some EVERYONE
      else None)"

definition example_env :: os_env where
  "example_env =
     \<lparr>LookupAccountSid = example_accounts,
      LookupAccountName = example_names,
      os_path_abspath = (\<lambda>p. p),
      os_path_join = (\<lambda>d n. d @ ''/'' @ n),
      os_listing = (\<lambda>p. if p = ''C:/a''
                          then Some (Node [(''b'', Node [] [''3.txt''])] [''1.txt'', ''2.txt''])
                          else None),
      os_mkdir = (\<lambda>p s. if p = ''C:/missing/new'' then None
                        else Some \<lparr>sd_protected = False, sd_dacl = []\<rparr>),
      enum_accepts_values = False\<rparr>"

text \<open>The two entries a full reset installs, and a descriptor that holds just them.\<close>

definition baseline :: "ace list" where
  "baseline = [allowed 3 FILE_ALL_ACCESS NT_AUTHORITY, allowed 3 FILE_ALL_ACCESS ADMINS]"

definition example_sd :: security_descriptor where
  "example_sd = \<lparr>sd_protected = False, sd_dacl = baseline\<rparr>"

definition example_store :: store where
  "example_store = [''C:/a'' \<mapsto> example_sd]"

text \<open>
  The tree on disk, every object with the baseline, and \<^verbatim>\<open>1.txt\<close> with an entry for
  \<open>students\<close> from an earlier grant.
\<close>

definition example_tree_store :: store where
  "example_tree_store =
     [''C:/a'' \<mapsto> example_sd,
      ''C:/a/b'' \<mapsto> example_sd,
      ''C:/a/1.txt'' \<mapsto>
         \<lparr>sd_protected = False,
          sd_dacl = baseline @ [allowed 3 (perm_value FULL_CONTROL) students_sid]\<rparr>,
      ''C:/a/2.txt'' \<mapsto> example_sd,
      ''C:/a/b/3.txt'' \<mapsto> example_sd]"

section \<open>The flag composer\<close>

lemma set_flags_TT: "priv_set_flags True True = (536870916, 3)"
  by (simp add: priv_set_flags_def CONTAINER_INHERIT_ACE_def OBJECT_INHERIT_ACE_def
      DACL_SECURITY_INFORMATION_def UNPROTECTED_DACL_SECURITY_INFORMATION_def)

lemma set_flags_TF: "priv_set_flags True False = (536870916, 0)"
  by (simp add: priv_set_flags_def NO_INHERITANCE_def
      DACL_SECURITY_INFORMATION_def UNPROTECTED_DACL_SECURITY_INFORMATION_def)

lemma set_flags_FT: "priv_set_flags False True = (- 2147483644, 3)"
  by (simp add: priv_set_flags_def CONTAINER_INHERIT_ACE_def OBJECT_INHERIT_ACE_def
      DACL_SECURITY_INFORMATION_def PROTECTED_DACL_SECURITY_INFORMATION_def)

lemma set_flags_FF: "priv_set_flags False False = (- 2147483644, 0)"
  by (simp add: priv_set_flags_def NO_INHERITANCE_def
      DACL_SECURITY_INFORMATION_def PROTECTED_DACL_SECURITY_INFORMATION_def)



text \<open>
  \<^bold>\<open>C6.\<close> The flag composer returns a fixed pair for each of the four combinations of its two
  booleans, and the four pairs are pairwise distinct. With propagation the entry flags are
  exactly container-inherit and object-inherit, both set; without it they are
  \<open>NO_INHERITANCE\<close>. Without inheritance the descriptor flags carry the protected bit
  and not the unprotected one; with inheritance it is the other way round. The values
  are those \<^verbatim>\<open>test_set_flags\<close> expects.
\<close>

theorem set_flags_table: "priv_set_flags True True = (536870916, 3) \<and>
   priv_set_flags True False = (536870916, 0) \<and>
   priv_set_flags False True = (- 2147483644, 3) \<and>
   priv_set_flags False False = (- 2147483644, 0) \<and>
   distinct [priv_set_flags True True, priv_set_flags True False,
             priv_set_flags False True, priv_set_flags False False] \<and>
   (\<forall>inherits.
      snd (priv_set_flags inherits True) = (CONTAINER_INHERIT_ACE OR OBJECT_INHERIT_ACE) \<and>
      snd (priv_set_flags inherits True) AND CONTAINER_INHERIT_ACE \<noteq> 0 \<and>
      snd (priv_set_flags inherits True) AND OBJECT_INHERIT_ACE \<noteq> 0 \<and>
      snd (priv_set_flags inherits False) = NO_INHERITANCE) \<and>
   (\<forall>propagation.
      fst (priv_set_flags False propagation) AND PROTECTED_DACL_SECURITY_INFORMATION \<noteq> 0 \<and>
      fst (priv_set_flags False propagation) AND UNPROTECTED_DACL_SECURITY_INFORMATION = 0 \<and>
      fst (priv_set_flags True propagation) AND UNPROTECTED_DACL_SECURITY_INFORMATION \<noteq> 0 \<and>
      fst (priv_set_flags True propagation) AND PROTECTED_DACL_SECURITY_INFORMATION = 0)"
  by (simp add: priv_set_flags_def CONTAINER_INHERIT_ACE_def OBJECT_INHERIT_ACE_def
      NO_INHERITANCE_def DACL_SECURITY_INFORMATION_def PROTECTED_DACL_SECURITY_INFORMATION_def
      UNPROTECTED_DACL_SECURITY_INFORMATION_def)

section \<open>The loop that strips a principal\<close>

lemma take_DeleteAce: "take i (DeleteAce dacl i) = take i dacl"
  by (simp add: DeleteAce_def min_def)

lemma drop_DeleteAce: "i < length dacl \<Longrightarrow> drop i (DeleteAce dacl i) = drop (Suc i) dacl"
  by (simp add: DeleteAce_def)

lemma length_DeleteAce: "i < length dacl \<Longrightarrow> length (DeleteAce dacl i) = length dacl - 1"
  by (simp add: DeleteAce_def)

lemma strip_loop_char:
  "ace_count = length dacl \<Longrightarrow> i \<le> length dacl \<Longrightarrow>
   strip_loop env p i ace_count dacl =
     (if drop i dacl = [] then Inr dacl
      else if (\<forall>a \<in> set (drop i dacl). LookupAccountSid env (ace_sid a) \<noteq> None) \<and>
              LookupAccountSid env p \<noteq> None
      then Inr (take i dacl @ filter (\<lambda>a. \<not> matches env p a) (drop i dacl))
      else Inl Win32Error)"
proof (induction env p i ace_count dacl rule: strip_loop.induct)
  case (1 env p i ace_count dacl)
  show ?case
  proof (cases "i < ace_count")
    case False
    with "1.prems" show ?thesis by (subst strip_loop.simps) simp
  next
    case True
    with "1.prems" have lt: "i < length dacl" by simp
    then have dr: "drop i dacl = dacl ! i # drop (Suc i) dacl"
      by (simp add: Cons_nth_drop_Suc)
    show ?thesis
    proof (cases "LookupAccountSid env (ace_sid (dacl ! i))")
      case None
      with True lt dr show ?thesis by (subst strip_loop.simps) auto
    next
      case (Some user)
      note u = this
      show ?thesis
      proof (cases "LookupAccountSid env p")
        case None
        with True lt dr u show ?thesis by (subst strip_loop.simps) auto
      next
        case (Some user_to_delete)
        note d = this
        show ?thesis
        proof (cases "user = user_to_delete")
          case True
          note eq = this
          have ih: "strip_loop env p i (ace_count - 1) (DeleteAce dacl i) =
             (if drop i (DeleteAce dacl i) = [] then Inr (DeleteAce dacl i)
              else if (\<forall>a \<in> set (drop i (DeleteAce dacl i)). LookupAccountSid env (ace_sid a) \<noteq> None) \<and>
                      LookupAccountSid env p \<noteq> None
              then Inr (take i (DeleteAce dacl i) @ filter (\<lambda>a. \<not> matches env p a) (drop i (DeleteAce dacl i)))
              else Inl Win32Error)"
          proof (rule "1.IH"(1)[OF \<open>i < ace_count\<close> lt u d eq])
            show "ace_count - 1 = length (DeleteAce dacl i)"
              using "1.prems" lt by (simp add: length_DeleteAce)
            show "i \<le> length (DeleteAce dacl i)"
              using lt by (simp add: length_DeleteAce)
          qed
          have m: "matches env p (dacl ! i)" using u d eq by (simp add: matches_def)
          have step: "strip_loop env p i ace_count dacl =
                strip_loop env p i (ace_count - 1) (DeleteAce dacl i)"
            using \<open>i < ace_count\<close> lt u d eq by (subst strip_loop.simps) simp
          have e1: "drop i (DeleteAce dacl i) = drop (Suc i) dacl"
            by (rule drop_DeleteAce[OF lt])
          have e2: "take i (DeleteAce dacl i) = take i dacl"
            by (rule take_DeleteAce)
          have e3: "DeleteAce dacl i = take i dacl @ drop (Suc i) dacl"
            by (simp add: DeleteAce_def)
          show ?thesis
            unfolding step ih e1 e2 using dr m d u e3 by auto
        next
          case False
          note ne = this
          have ih: "strip_loop env p (i + 1) ace_count dacl =
             (if drop (i + 1) dacl = [] then Inr dacl
              else if (\<forall>a \<in> set (drop (i + 1) dacl). LookupAccountSid env (ace_sid a) \<noteq> None) \<and>
                      LookupAccountSid env p \<noteq> None
              then Inr (take (i + 1) dacl @ filter (\<lambda>a. \<not> matches env p a) (drop (i + 1) dacl))
              else Inl Win32Error)"
          proof (rule "1.IH"(2)[OF \<open>i < ace_count\<close> lt u d ne])
            show "ace_count = length dacl" using "1.prems" by simp
            show "i + 1 \<le> length dacl" using lt by simp
          qed
          have m: "\<not> matches env p (dacl ! i)" using u d ne by (simp add: matches_def)
          have step: "strip_loop env p i ace_count dacl =
                strip_loop env p (i + 1) ace_count dacl"
            using \<open>i < ace_count\<close> lt u d ne by (subst strip_loop.simps) simp
          have e1: "take (i + 1) dacl = take i dacl @ [dacl ! i]"
            using lt by (simp add: take_Suc_conv_app_nth)
          have e2: "drop (Suc i) dacl = [] \<Longrightarrow> dacl = take i dacl @ [dacl ! i]"
            using dr by (metis append_take_drop_id)
          show ?thesis
            unfolding step ih e1 using dr m d u e2 by auto
        qed
      qed
    qed
  qed
qed


lemma strip_loop_all:
  "strip_loop env user 0 (length dacl) dacl =
     (if strip_succeeds env user dacl then Inr (stripped env user dacl) else Inl Win32Error)"
  using strip_loop_char [of "length dacl" dacl 0 env user]
  by (auto simp: strip_succeeds_def all_resolve_def stripped_def list_all_iff)

lemma reset_user_permissions_at:
  "s p = Some sd \<Longrightarrow>
   reset_user_permissions env p user s =
     (if strip_succeeds env user (sd_dacl sd)
      then (Inr (sd\<lparr>sd_dacl := stripped env user (sd_dacl sd)\<rparr>),
            s(p \<mapsto> sd\<lparr>sd_dacl := stripped env user (sd_dacl sd)\<rparr>))
      else (Inl Win32Error, s))"
  by (simp add: reset_user_permissions_def io_bind_def GetFileSecurity_def SetFileSecurity_def
      io_return_def io_raise_def strip_loop_all Let_def)

lemma reset_user_permissions_missing:
  "s p = None \<Longrightarrow> reset_user_permissions env p user s = (Inl Win32Error, s)"
  by (simp add: reset_user_permissions_def io_bind_def GetFileSecurity_def)

lemma grant_at:
  "s p = Some sd \<Longrightarrow>
   priv_grant_permission user p (Member level) inherits propagation s =
     (Inr (sd\<lparr>sd_dacl := reorder (sd_dacl sd @
              [allowed (if propagation then 3 else 0) (perm_value level) user])\<rparr>),
      s(p \<mapsto> \<lparr>sd_protected = (\<not> inherits),
                 sd_dacl = reorder (sd_dacl sd @
                   [allowed (if propagation then 3 else 0) (perm_value level) user])\<rparr>))"
  by (cases inherits; cases propagation)
     (simp_all add: Let_def level_value_def priv_grant_permission_def set_flags_TT set_flags_TF set_flags_FT set_flags_FF
      io_bind_def read_security_def GetNamedSecurityInfo_def SetNamedSecurityInfo_def
      io_return_def AddAccessAllowedAceEx_def allowed_def
      PROTECTED_DACL_SECURITY_INFORMATION_def UNPROTECTED_DACL_SECURITY_INFORMATION_def)

lemma deny_at:
  "s p = Some sd \<Longrightarrow>
   priv_deny_permission user p (Member level) inherits propagation s =
     (Inr (sd\<lparr>sd_dacl := reorder (sd_dacl sd @
              [denied (if propagation then 3 else 0) (perm_value level) user])\<rparr>),
      s(p \<mapsto> \<lparr>sd_protected = (\<not> inherits),
                 sd_dacl = reorder (sd_dacl sd @
                   [denied (if propagation then 3 else 0) (perm_value level) user])\<rparr>))"
  by (cases inherits; cases propagation)
     (simp_all add: Let_def level_value_def priv_deny_permission_def set_flags_TT set_flags_TF set_flags_FT set_flags_FF
      io_bind_def read_security_def GetNamedSecurityInfo_def SetNamedSecurityInfo_def
      io_return_def AddAccessDeniedAceEx_def denied_def
      PROTECTED_DACL_SECURITY_INFORMATION_def UNPROTECTED_DACL_SECURITY_INFORMATION_def)

lemma filter_reorder: "filter P (reorder xs) = reorder (filter P xs)"
  by (simp add: reorder_def conj_commute)

lemma set_reorder: "set (reorder xs) = set xs"
  by (auto simp: reorder_def) (metis ace_kind.exhaust)

lemma entries_for_stripped: "entries_for env user (stripped env user dacl) = []"
  by (simp add: entries_for_def stripped_def)

lemma matches_own: "ace_sid a = user \<Longrightarrow> matches env user a"
  by (simp add: matches_def)

lemma reorder_single_allowed: "reorder [allowed 3 m u] = [allowed 3 m u]"
  by (simp add: reorder_def allowed_def is_inherited_def INHERITED_ACE_def)

lemma reorder_single_denied: "reorder [denied f m u] = (if f AND 16 \<noteq> 0 then [denied f m u] else [denied f m u])"
  by (simp add: reorder_def denied_def is_inherited_def INHERITED_ACE_def)

lemma reorder_allowed_denied:
  "reorder [allowed 3 m u, denied 0 m' u'] = [denied 0 m' u', allowed 3 m u]"
  by (simp add: reorder_def allowed_def denied_def is_inherited_def INHERITED_ACE_def)


lemma reset_user_permissions_upd:
  "reset_user_permissions env p user (s(p \<mapsto> sd)) =
     (if strip_succeeds env user (sd_dacl sd)
      then (Inr (sd\<lparr>sd_dacl := stripped env user (sd_dacl sd)\<rparr>),
            s(p \<mapsto> sd\<lparr>sd_dacl := stripped env user (sd_dacl sd)\<rparr>))
      else (Inl Win32Error, s(p \<mapsto> sd)))"
  using reset_user_permissions_at [of "s(p \<mapsto> sd)" p sd env user] by simp

lemma grant_upd:
  "priv_grant_permission user p (Member level) inherits propagation (s(p \<mapsto> sd)) =
     (Inr (sd\<lparr>sd_dacl := reorder (sd_dacl sd @
              [allowed (if propagation then 3 else 0) (perm_value level) user])\<rparr>),
      s(p \<mapsto> \<lparr>sd_protected = (\<not> inherits),
                 sd_dacl = reorder (sd_dacl sd @
                   [allowed (if propagation then 3 else 0) (perm_value level) user])\<rparr>))"
  using grant_at [of "s(p \<mapsto> sd)" p sd user level inherits propagation] by simp

lemma deny_upd:
  "priv_deny_permission user p (Member level) inherits propagation (s(p \<mapsto> sd)) =
     (Inr (sd\<lparr>sd_dacl := reorder (sd_dacl sd @
              [denied (if propagation then 3 else 0) (perm_value level) user])\<rparr>),
      s(p \<mapsto> \<lparr>sd_protected = (\<not> inherits),
                 sd_dacl = reorder (sd_dacl sd @
                   [denied (if propagation then 3 else 0) (perm_value level) user])\<rparr>))"
  using deny_at [of "s(p \<mapsto> sd)" p sd user level inherits propagation] by simp

lemma give_permission_single:
  assumes name: "LookupAccountName env name = Some user"
    and ok: "strip_succeeds env user (sd_dacl sd)"
    and lvl: "level \<noteq> DELETE"
  shows "give_permission env \<lparr>priv_path = Some root\<rparr> name (Member level) False (s(root \<mapsto> sd)) =
     (Inr (),
      s(root \<mapsto> \<lparr>sd_protected = False,
                   sd_dacl =
                     (if level = MODIFY_PROTECTED
                      then reorder (reorder (stripped env user (sd_dacl sd) @
                                       [allowed 3 (perm_value MODIFY) user]) @
                                    [denied 0 (perm_value DELETE) user])
                      else if level = FULL_DENY
                      then reorder (stripped env user (sd_dacl sd) @
                                      [denied 3 (perm_value FULL_CONTROL) user])
                      else reorder (stripped env user (sd_dacl sd) @
                                      [allowed 3 (perm_value level) user]))\<rparr>))"
  using assms
  by (cases level)
     (simp_all add: give_permission_def not_in_Permissions_def path_def
        priv_get_user_or_group_pysid_def io_bind_def io_return_def reset_user_permissions_upd
        grant_upd deny_upd)


section \<open>Entries after a grant or a denial\<close>

lemma list_all_reorder: "list_all P (reorder xs) = list_all P xs"
  by (simp add: list_all_iff set_reorder)

lemma filter_sid_entries:
  "filter (\<lambda>a. ace_sid a = user) dacl = filter (\<lambda>a. ace_sid a = user) (entries_for env user dacl)"
  by (auto simp: entries_for_def matches_def intro: filter_cong)

lemma entries_for_reorder_add:
  "ace_sid a = user \<Longrightarrow>
   entries_for env user (reorder (dacl @ [a])) = reorder (entries_for env user dacl @ [a])"
  by (simp add: entries_for_def filter_reorder matches_def)

lemma entries_modify_protected:
  "entries_for env user
     (reorder (reorder (stripped env user dacl @ [allowed 3 m user]) @ [denied 0 m' user])) =
   [denied 0 m' user, allowed 3 m user]"
proof -
  have a: "ace_sid (allowed 3 m user) = user" by (simp add: allowed_def)
  have d: "ace_sid (denied 0 m' user) = user" by (simp add: denied_def)
  show ?thesis
    by (simp add: entries_for_reorder_add [OF d] entries_for_reorder_add [OF a]
        entries_for_stripped reorder_single_allowed reorder_allowed_denied)
qed

lemma entries_single_allowed:
  "entries_for env user (reorder (stripped env user dacl @ [allowed 3 m user])) =
   [allowed 3 m user]"
proof -
  have a: "ace_sid (allowed 3 m user) = user" by (simp add: allowed_def)
  show ?thesis
    by (simp add: entries_for_reorder_add [OF a] entries_for_stripped reorder_single_allowed)
qed

lemma entries_single_denied:
  "entries_for env user (reorder (stripped env user dacl @ [denied 3 m user])) =
   [denied 3 m user]"
proof -
  have a: "ace_sid (denied 3 m user) = user" by (simp add: denied_def)
  show ?thesis
    by (simp add: entries_for_reorder_add [OF a] entries_for_stripped reorder_single_denied)
qed

lemma all_resolve_add:
  "all_resolve env user dacl \<Longrightarrow> ace_sid a = user \<Longrightarrow>
   all_resolve env user (reorder (dacl @ [a]))"
  by (simp add: all_resolve_def list_all_reorder)

lemma all_resolve_stripped:
  "all_resolve env user dacl \<Longrightarrow> all_resolve env user (stripped env user dacl)"
  by (simp add: all_resolve_def stripped_def list_all_iff)

lemma all_resolve_level:
  assumes "all_resolve env user dacl"
  shows "all_resolve env user
     (if level = MODIFY_PROTECTED
      then reorder (reorder (stripped env user dacl @ [allowed 3 m1 user]) @ [denied 0 m2 user])
      else if level = FULL_DENY
      then reorder (stripped env user dacl @ [denied 3 m3 user])
      else reorder (stripped env user dacl @ [allowed 3 m4 user]))"
  using assms
  by (auto intro!: all_resolve_add all_resolve_stripped simp: allowed_def denied_def)

lemma entries_level:
  "entries_for env user
     (if level = MODIFY_PROTECTED
      then reorder (reorder (stripped env user dacl @ [allowed 3 m1 user]) @ [denied 0 m2 user])
      else if level = FULL_DENY
      then reorder (stripped env user dacl @ [denied 3 m3 user])
      else reorder (stripped env user dacl @ [allowed 3 m4 user])) =
   (if level = MODIFY_PROTECTED then [denied 0 m2 user, allowed 3 m1 user]
    else if level = FULL_DENY then [denied 3 m3 user]
    else [allowed 3 m4 user])"
  by (simp add: entries_modify_protected entries_single_allowed entries_single_denied)


section \<open>The sample system\<close>

lemma example_name_everyone: "LookupAccountName example_env ''Everyone'' = Some EVERYONE"
  by (simp add: example_env_def example_names_def)

lemma example_all_resolve_everyone: "all_resolve example_env EVERYONE (sd_dacl example_sd)"
  by (simp add: all_resolve_def example_sd_def baseline_def allowed_def example_env_def
      example_accounts_def)

section \<open>\<^verbatim>\<open>give_permission\<close> on a single path\<close>

text \<open>
  \<^bold>\<open>C3, as stated, fails.\<close> On the sample system the directory carries, next to the
  baseline, an entry of a deleted account. \<^verbatim>\<open>give_permission\<close> with \<open>MODIFY_PROTECTED\<close>
  for the group of everyone raises in the strip, and neither the grant nor the denial
  is made: the descriptor is as it was.
\<close>

theorem modify_protected_raises_counterexample:
  "give_permission example_env \<lparr>priv_path = Some ''C:/a''\<rparr> ''Everyone''
     (Member MODIFY_PROTECTED) False
     [''C:/a'' \<mapsto> \<lparr>sd_protected = False,
                    sd_dacl = baseline @ [allowed 3 (perm_value READ) deleted_sid]\<rparr>] =
   (Inl Win32Error,
    [''C:/a'' \<mapsto> \<lparr>sd_protected = False,
                    sd_dacl = baseline @ [allowed 3 (perm_value READ) deleted_sid]\<rparr>])"
proof -
  have no: "\<And>m. \<not> strip_succeeds example_env EVERYONE
              (baseline @ [allowed 3 m deleted_sid])"
    by (simp add: strip_succeeds_def all_resolve_def baseline_def allowed_def example_env_def
        example_accounts_def students_sid_def students_old_sid_def deleted_sid_def
        NT_AUTHORITY_def ADMINS_def EVERYONE_def)
  show ?thesis
    using no
    by (simp add: give_permission_def not_in_Permissions_def path_def
        priv_get_user_or_group_pysid_def example_name_everyone io_bind_def io_return_def
        reset_user_permissions_upd)
qed

text \<open>
  \<^bold>\<open>C3, amended.\<close> Where the name resolves and the strip goes through (the list of the
  path is empty, or the identifier of the principal and that of every entry have an
  account), a non-recursive \<^verbatim>\<open>give_permission\<close> with \<open>MODIFY_PROTECTED\<close> is the strip, then
  one grant of \<open>MODIFY\<close> with inheritance and propagation, then one denial of \<open>DELETE\<close>
  with inheritance and without propagation, all three on the path of the directory. It
  succeeds, and the descriptor it leaves holds for the principal exactly two entries:
  the denial of \<open>DELETE\<close> with no inheritance flag, and the allowance of \<open>MODIFY\<close> with
  both. This is so whether the entries are picked by account or by identifier.
\<close>

theorem modify_protected_single:
  assumes name: "LookupAccountName env name = Some user"
    and ok: "strip_succeeds env user (sd_dacl sd)"
  shows "give_permission env \<lparr>priv_path = Some root\<rparr> name (Member MODIFY_PROTECTED) False
           (s(root \<mapsto> sd)) =
         io_bind (reset_user_permissions env root user)
           (\<lambda>_. io_bind (priv_grant_permission user root (Member MODIFY) True True)
              (\<lambda>_. io_bind (priv_deny_permission user root (Member DELETE) True False)
                 (\<lambda>_. io_return ()))) (s(root \<mapsto> sd)) \<and>
         (\<exists>sd'. give_permission env \<lparr>priv_path = Some root\<rparr> name (Member MODIFY_PROTECTED) False
                   (s(root \<mapsto> sd)) = (Inr (), s(root \<mapsto> sd')) \<and>
                 entries_for env user (sd_dacl sd') =
                   [denied NO_INHERITANCE (perm_value DELETE) user,
                    allowed (CONTAINER_INHERIT_ACE OR OBJECT_INHERIT_ACE) (perm_value MODIFY) user] \<and>
                 filter (\<lambda>a. ace_sid a = user) (sd_dacl sd') =
                   [denied NO_INHERITANCE (perm_value DELETE) user,
                    allowed (CONTAINER_INHERIT_ACE OR OBJECT_INHERIT_ACE) (perm_value MODIFY) user])"
proof -
  let ?g = "give_permission env \<lparr>priv_path = Some root\<rparr> name (Member MODIFY_PROTECTED) False
           (s(root \<mapsto> sd))"
  let ?dacl = "reorder (reorder (stripped env user (sd_dacl sd) @
                 [allowed 3 (perm_value MODIFY) user]) @ [denied 0 (perm_value DELETE) user])"
  have g: "?g = (Inr (), s(root \<mapsto> \<lparr>sd_protected = False, sd_dacl = ?dacl\<rparr>))"
    using give_permission_single [OF name ok, of MODIFY_PROTECTED root s] by simp
  have seq: "io_bind (reset_user_permissions env root user)
           (\<lambda>_. io_bind (priv_grant_permission user root (Member MODIFY) True True)
              (\<lambda>_. io_bind (priv_deny_permission user root (Member DELETE) True False)
                 (\<lambda>_. io_return ()))) (s(root \<mapsto> sd)) =
        (Inr (), s(root \<mapsto> \<lparr>sd_protected = False, sd_dacl = ?dacl\<rparr>))"
    using ok by (simp add: io_bind_def io_return_def reset_user_permissions_upd grant_upd deny_upd)
  have e: "entries_for env user ?dacl =
             [denied 0 (perm_value DELETE) user, allowed 3 (perm_value MODIFY) user]"
    by (rule entries_modify_protected)
  have f: "filter (\<lambda>a. ace_sid a = user) ?dacl =
             [denied 0 (perm_value DELETE) user, allowed 3 (perm_value MODIFY) user]"
    by (subst filter_sid_entries [of user _ env], subst e) (simp add: allowed_def denied_def)
  have flags: "NO_INHERITANCE = 0" "CONTAINER_INHERIT_ACE OR OBJECT_INHERIT_ACE = 3"
    by (simp_all add: NO_INHERITANCE_def CONTAINER_INHERIT_ACE_def OBJECT_INHERIT_ACE_def)
  have "\<exists>sd'. ?g = (Inr (), s(root \<mapsto> sd')) \<and>
          entries_for env user (sd_dacl sd') =
            [denied 0 (perm_value DELETE) user, allowed 3 (perm_value MODIFY) user] \<and>
          filter (\<lambda>a. ace_sid a = user) (sd_dacl sd') =
            [denied 0 (perm_value DELETE) user, allowed 3 (perm_value MODIFY) user]"
    by (rule exI [of _ "\<lparr>sd_protected = False, sd_dacl = ?dacl\<rparr>"]) (simp only: g e f security_descriptor.simps simp_thms)
  then show ?thesis
    unfolding flags using g seq by simp
qed

text \<open>The statement on the sample system, for the group of everyone.\<close>

theorem modify_protected_single_witness:
  "LookupAccountName example_env ''Everyone'' = Some EVERYONE \<and>
   strip_succeeds example_env EVERYONE (sd_dacl example_sd) \<and>
   (\<exists>sd'. give_permission example_env \<lparr>priv_path = Some ''C:/a''\<rparr> ''Everyone''
             (Member MODIFY_PROTECTED) False example_store = (Inr (), [''C:/a'' \<mapsto> sd']) \<and>
          entries_for example_env EVERYONE (sd_dacl sd') =
            [denied NO_INHERITANCE (perm_value DELETE) EVERYONE,
             allowed (CONTAINER_INHERIT_ACE OR OBJECT_INHERIT_ACE) (perm_value MODIFY) EVERYONE])"
proof -
  have ok: "strip_succeeds example_env EVERYONE (sd_dacl example_sd)"
    using example_all_resolve_everyone by (simp add: strip_succeeds_def)
  show ?thesis
    using example_name_everyone ok
      modify_protected_single [OF example_name_everyone ok, of "''C:/a''" Map.empty]
    unfolding example_store_def by blast
qed

text \<open>
  \<^bold>\<open>C2, as stated, fails.\<close> On the sample system, \<open>READ\<close> followed by
  \<open>MODIFY_PROTECTED\<close> for the same principal on the same path leaves two entries for the
  principal, not one.
\<close>

theorem apply_twice_one_entry_counterexample:
  "length (entries_for example_env EVERYONE
     (sd_dacl (the (snd (give_permission example_env \<lparr>priv_path = Some ''C:/a''\<rparr> ''Everyone''
                          (Member MODIFY_PROTECTED) False
                          (snd (give_permission example_env \<lparr>priv_path = Some ''C:/a''\<rparr>
                                  ''Everyone'' (Member READ) False example_store)))
                     ''C:/a'')))) = 2"
proof -
  have ok0: "strip_succeeds example_env EVERYONE (sd_dacl example_sd)"
    using example_all_resolve_everyone by (simp add: strip_succeeds_def)
  let ?d1 = "reorder (stripped example_env EVERYONE (sd_dacl example_sd) @
               [allowed 3 (perm_value READ) EVERYONE])"
  let ?sd1 = "\<lparr>sd_protected = False, sd_dacl = ?d1\<rparr>"
  have g1: "give_permission example_env \<lparr>priv_path = Some ''C:/a''\<rparr> ''Everyone'' (Member READ)
              False example_store = (Inr (), [''C:/a'' \<mapsto> ?sd1])"
    using give_permission_single [OF example_name_everyone ok0, of READ "''C:/a''" Map.empty]
    by (simp add: example_store_def)
  have "all_resolve example_env EVERYONE ?d1"
    using all_resolve_level [OF example_all_resolve_everyone, of READ] by simp
  then have ok1: "strip_succeeds example_env EVERYONE (sd_dacl ?sd1)"
    by (simp add: strip_succeeds_def)
  have l: "MODIFY_PROTECTED \<noteq> DELETE" by simp
  let ?d2 = "reorder (reorder (stripped example_env EVERYONE ?d1 @
               [allowed 3 (perm_value MODIFY) EVERYONE]) @
               [denied 0 (perm_value DELETE) EVERYONE])"
  have g2: "give_permission example_env \<lparr>priv_path = Some ''C:/a''\<rparr> ''Everyone''
              (Member MODIFY_PROTECTED) False [''C:/a'' \<mapsto> ?sd1] =
            (Inr (), [''C:/a'' \<mapsto> \<lparr>sd_protected = False, sd_dacl = ?d2\<rparr>])"
    using give_permission_single [OF example_name_everyone ok1 l, of "''C:/a''" Map.empty]
    by simp
  have e: "entries_for example_env EVERYONE ?d2 =
             [denied 0 (perm_value DELETE) EVERYONE, allowed 3 (perm_value MODIFY) EVERYONE]"
    by (rule entries_modify_protected)
  show ?thesis
    unfolding g1 snd_conv g2 by (simp only: fun_upd_same option.sel security_descriptor.simps e)
       simp
qed

text \<open>
  \<^bold>\<open>C2, amended.\<close> Where the name resolves and every identifier on the path has an
  account, two non-recursive calls in a row, with any two levels other than
  \<open>DELETE\<close>, both succeed, and the principal is left with exactly the entries of the
  second level: the denial of \<open>DELETE\<close> and the allowance of \<open>MODIFY\<close> for
  \<open>MODIFY_PROTECTED\<close>, one denial of \<open>FULL_CONTROL\<close> for \<open>FULL_DENY\<close>, and one allowance
  with the mask of the level otherwise. Nothing of the first level remains.
\<close>

theorem apply_twice_keeps_second:
  assumes name: "LookupAccountName env name = Some user"
    and res: "all_resolve env user (sd_dacl sd)"
    and l1: "L1 \<noteq> DELETE" and l2: "L2 \<noteq> DELETE"
  shows "\<exists>sd1 sd2.
     give_permission env \<lparr>priv_path = Some root\<rparr> name (Member L1) False (s(root \<mapsto> sd)) =
       (Inr (), s(root \<mapsto> sd1)) \<and>
     give_permission env \<lparr>priv_path = Some root\<rparr> name (Member L2) False (s(root \<mapsto> sd1)) =
       (Inr (), s(root \<mapsto> sd2)) \<and>
     entries_for env user (sd_dacl sd2) =
       (if L2 = MODIFY_PROTECTED
        then [denied NO_INHERITANCE (perm_value DELETE) user,
              allowed (CONTAINER_INHERIT_ACE OR OBJECT_INHERIT_ACE) (perm_value MODIFY) user]
        else if L2 = FULL_DENY
        then [denied (CONTAINER_INHERIT_ACE OR OBJECT_INHERIT_ACE) (perm_value FULL_CONTROL) user]
        else [allowed (CONTAINER_INHERIT_ACE OR OBJECT_INHERIT_ACE) (perm_value L2) user])"
proof -
  define step where "step = (\<lambda>level dacl.
      if level = MODIFY_PROTECTED
      then reorder (reorder (stripped env user dacl @
                       [allowed 3 (perm_value MODIFY) user]) @
                    [denied 0 (perm_value DELETE) user])
      else if level = FULL_DENY
      then reorder (stripped env user dacl @ [denied 3 (perm_value FULL_CONTROL) user])
      else reorder (stripped env user dacl @ [allowed 3 (perm_value level) user]))"
  define sd1 where "sd1 = \<lparr>sd_protected = False, sd_dacl = step L1 (sd_dacl sd)\<rparr>"
  define sd2 where "sd2 = \<lparr>sd_protected = False, sd_dacl = step L2 (sd_dacl sd1)\<rparr>"
  have ok0: "strip_succeeds env user (sd_dacl sd)"
    using res by (simp add: strip_succeeds_def)
  have res1: "all_resolve env user (sd_dacl sd1)"
    unfolding sd1_def step_def using all_resolve_level [OF res] by simp
  then have ok1: "strip_succeeds env user (sd_dacl sd1)"
    by (simp add: strip_succeeds_def)
  have g1: "give_permission env \<lparr>priv_path = Some root\<rparr> name (Member L1) False (s(root \<mapsto> sd)) =
       (Inr (), s(root \<mapsto> sd1))"
    unfolding sd1_def step_def by (rule give_permission_single [OF name ok0 l1])
  have g2: "give_permission env \<lparr>priv_path = Some root\<rparr> name (Member L2) False (s(root \<mapsto> sd1)) =
       (Inr (), s(root \<mapsto> sd2))"
    using give_permission_single [OF name ok1 l2, of root s] unfolding sd2_def step_def by simp
  have flags: "NO_INHERITANCE = 0" "CONTAINER_INHERIT_ACE OR OBJECT_INHERIT_ACE = 3"
    by (simp_all add: NO_INHERITANCE_def CONTAINER_INHERIT_ACE_def OBJECT_INHERIT_ACE_def)
  have e: "entries_for env user (sd_dacl sd2) =
       (if L2 = MODIFY_PROTECTED
        then [denied 0 (perm_value DELETE) user, allowed 3 (perm_value MODIFY) user]
        else if L2 = FULL_DENY
        then [denied 3 (perm_value FULL_CONTROL) user]
        else [allowed 3 (perm_value L2) user])"
    unfolding sd2_def step_def using entries_level [of env user L2] by simp
  show ?thesis
    unfolding flags using g1 g2 e by blast
qed

text \<open>The statement on the sample system: \<open>READ\<close>, then \<open>FULL_DENY\<close>.\<close>

theorem apply_twice_keeps_second_witness:
  "LookupAccountName example_env ''Everyone'' = Some EVERYONE \<and>
   all_resolve example_env EVERYONE (sd_dacl example_sd) \<and>
   READ \<noteq> DELETE \<and> FULL_DENY \<noteq> DELETE \<and>
   (\<exists>sd1 sd2.
     give_permission example_env \<lparr>priv_path = Some ''C:/a''\<rparr> ''Everyone'' (Member READ) False
       example_store = (Inr (), [''C:/a'' \<mapsto> sd1]) \<and>
     give_permission example_env \<lparr>priv_path = Some ''C:/a''\<rparr> ''Everyone'' (Member FULL_DENY) False
       [''C:/a'' \<mapsto> sd1] = (Inr (), [''C:/a'' \<mapsto> sd2]) \<and>
     entries_for example_env EVERYONE (sd_dacl sd2) =
       [denied (CONTAINER_INHERIT_ACE OR OBJECT_INHERIT_ACE) (perm_value FULL_CONTROL) EVERYONE])"
proof -
  have l1: "READ \<noteq> DELETE" and l2: "FULL_DENY \<noteq> DELETE" by simp_all
  from apply_twice_keeps_second [OF example_name_everyone example_all_resolve_everyone l1 l2,
      of "''C:/a''" Map.empty]
  have "\<exists>sd1 sd2.
     give_permission example_env \<lparr>priv_path = Some ''C:/a''\<rparr> ''Everyone'' (Member READ) False
       example_store = (Inr (), [''C:/a'' \<mapsto> sd1]) \<and>
     give_permission example_env \<lparr>priv_path = Some ''C:/a''\<rparr> ''Everyone'' (Member FULL_DENY) False
       [''C:/a'' \<mapsto> sd1] = (Inr (), [''C:/a'' \<mapsto> sd2]) \<and>
     entries_for example_env EVERYONE (sd_dacl sd2) =
       [denied (CONTAINER_INHERIT_ACE OR OBJECT_INHERIT_ACE) (perm_value FULL_CONTROL) EVERYONE]"
    unfolding example_store_def by simp
  then show ?thesis
    using example_name_everyone example_all_resolve_everyone by simp
qed

section \<open>Rejected levels\<close>

lemma reorder_baseline_add:
  "reorder (baseline @ [allowed 3 m u]) = baseline @ [allowed 3 m u]"
  by (simp add: reorder_def baseline_def allowed_def is_inherited_def INHERITED_ACE_def)

text \<open>
  \<^bold>\<open>C4, as stated, fails.\<close> \<^verbatim>\<open>_grant_permission\<close> has no check of the level: called with
  \<open>DELETE\<close> on the sample directory it returns normally and writes an entry that allows
  \<open>DELETE\<close> to the descriptor.
\<close>

theorem grant_delete_counterexample:
  "priv_grant_permission EVERYONE ''C:/a'' (Member DELETE) True True example_store =
     (Inr \<lparr>sd_protected = False,
           sd_dacl = baseline @ [allowed 3 (perm_value DELETE) EVERYONE]\<rparr>,
      [''C:/a'' \<mapsto> \<lparr>sd_protected = False,
                     sd_dacl = baseline @ [allowed 3 (perm_value DELETE) EVERYONE]\<rparr>])"
  unfolding example_store_def
  by (simp only: grant_upd) (simp add: example_sd_def reorder_baseline_add)

text \<open>
  \<^bold>\<open>C4, amended.\<close> \<^verbatim>\<open>give_permission\<close> with the member \<open>DELETE\<close>, or with a value that is
  neither a member of the enumeration nor the value of one, raises
  \<open>NotAValidPermission\<close> in every store, for every directory, name and setting of
  \<open>recursive\<close>, and hands the store back as it was: the outcome does not depend on any
  descriptor and none is written. The same holds for the raw value of a member on an
  interpreter older than Python 3.12. \<^verbatim>\<open>_grant_permission\<close> does not reject \<open>DELETE\<close>: on
  an existing path it appends the entry and succeeds.
\<close>

theorem invalid_permission_no_mutation:
  "give_permission env self name NotALevel recursive s = (Inl NotAValidPermission, s) \<and>
   give_permission env self name (Member DELETE) recursive s = (Inl NotAValidPermission, s) \<and>
   (\<not> enum_accepts_values env \<longrightarrow>
      give_permission env self name (RawValue m) recursive s = (Inl NotAValidPermission, s)) \<and>
   priv_grant_permission user p (Member DELETE) inherits propagation (s(p \<mapsto> sd)) =
     (Inr (sd\<lparr>sd_dacl := reorder (sd_dacl sd @
              [allowed (if propagation then 3 else 0) con_DELETE user])\<rparr>),
      s(p \<mapsto> \<lparr>sd_protected = (\<not> inherits),
                 sd_dacl = reorder (sd_dacl sd @
                   [allowed (if propagation then 3 else 0) con_DELETE user])\<rparr>))"
  using grant_upd [of user p DELETE inherits propagation s sd]
  by (simp add: give_permission_def not_in_Permissions_def io_raise_def)

text \<open>
  The statement on the sample system: the integer that is the value of \<open>DELETE\<close>.
\<close>

theorem invalid_permission_no_mutation_witness:
  "\<not> enum_accepts_values example_env \<and>
   give_permission example_env \<lparr>priv_path = Some ''C:/a''\<rparr> ''Everyone'' (RawValue DELETE)
     False example_store = (Inl NotAValidPermission, example_store)"
proof -
  have old: "\<not> enum_accepts_values example_env" by (simp add: example_env_def)
  note t = invalid_permission_no_mutation [of example_env "\<lparr>priv_path = Some ''C:/a''\<rparr>"
      "''Everyone''" False example_store DELETE]
  have "give_permission example_env \<lparr>priv_path = Some ''C:/a''\<rparr> ''Everyone''
      (RawValue DELETE) False example_store = (Inl NotAValidPermission, example_store)"
    by (rule t [THEN conjunct2, THEN conjunct2, THEN conjunct1, THEN mp, OF old])
  with old show ?thesis by (rule conjI)
qed

text \<open>
  From Python 3.12 on the raw value of a member passes the membership test. The name is
  looked up and the principal stripped; the call ends in \<open>AttributeError\<close> when
  \<^verbatim>\<open>_grant_permission\<close> asks the value for its \<^verbatim>\<open>value\<close>.
\<close>

lemma give_permission_raw_value:
  assumes "enum_accepts_values env"
    and "LookupAccountName env name = Some user"
    and "strip_succeeds env user (sd_dacl sd)"
  shows "give_permission env \<lparr>priv_path = Some root\<rparr> name (RawValue m) False
           (s(root \<mapsto> sd)) =
         (Inl AttributeError, s(root \<mapsto> sd\<lparr>sd_dacl := stripped env user (sd_dacl sd)\<rparr>))"
  using assms
  by (simp add: give_permission_def not_in_Permissions_def path_def
      priv_get_user_or_group_pysid_def io_bind_def io_return_def io_raise_def
      reset_user_permissions_upd priv_grant_permission_def read_security_def
      GetNamedSecurityInfo_def level_value_def Let_def split_def)

section \<open>The full reset\<close>

lemma priv_reset_permissions_upd:
  "priv_reset_permissions p (s(p \<mapsto> sd)) =
     (Inr (sd\<lparr>sd_dacl := baseline\<rparr>), s(p \<mapsto> sd\<lparr>sd_dacl := baseline\<rparr>))"
  by (simp add: priv_reset_permissions_def io_bind_def io_return_def GetFileSecurity_def
      SetFileSecurity_def Let_def set_flags_FT AddAccessAllowedAceEx_def reorder_def
      is_inherited_def INHERITED_ACE_def baseline_def allowed_def)


text \<open>
  \<^bold>\<open>C5, as stated, fails.\<close> After \<^verbatim>\<open>_reset_permissions\<close> on the sample directory, whose
  descriptor is not protected, the descriptor on disk still is not protected.
\<close>

theorem reset_all_protected_counterexample:
  "snd (priv_reset_permissions ''C:/a'' example_store) ''C:/a'' =
     Some \<lparr>sd_protected = False, sd_dacl = baseline\<rparr>"
  unfolding example_store_def
  by (simp only: priv_reset_permissions_upd) (simp add: example_sd_def)

text \<open>
  \<^bold>\<open>C5, amended.\<close> On every existing path \<^verbatim>\<open>_reset_permissions\<close>, and \<^verbatim>\<open>reset_permissions\<close>
  without recursion on the path of the directory, replace whatever entries there were
  by exactly two: full control allowed to the system authority, then to the
  administrators. Their entry flags are the second component of
  \<^verbatim>\<open>_set_flags(inherits=False, propagation=True)\<close>, container-inherit and object-inherit.
  The first component is dropped, and the protection of the descriptor stays as it was
  read.
\<close>

theorem reset_all_baseline:
  "priv_reset_permissions p (s(p \<mapsto> sd)) =
     (Inr (sd\<lparr>sd_dacl := baseline\<rparr>), s(p \<mapsto> sd\<lparr>sd_dacl := baseline\<rparr>)) \<and>
   reset_permissions env \<lparr>priv_path = Some p\<rparr> False (s(p \<mapsto> sd)) =
     (Inr (), s(p \<mapsto> sd\<lparr>sd_dacl := baseline\<rparr>)) \<and>
   sd_protected (sd\<lparr>sd_dacl := baseline\<rparr>) = sd_protected sd \<and>
   baseline =
     [\<lparr>ace_type = ACCESS_ALLOWED, ace_flags = snd (priv_set_flags False True),
       ace_mask = FILE_ALL_ACCESS, ace_sid = NT_AUTHORITY\<rparr>,
      \<lparr>ace_type = ACCESS_ALLOWED, ace_flags = snd (priv_set_flags False True),
       ace_mask = FILE_ALL_ACCESS, ace_sid = ADMINS\<rparr>] \<and>
   snd (priv_set_flags False True) = (CONTAINER_INHERIT_ACE OR OBJECT_INHERIT_ACE)"
  by (simp add: priv_reset_permissions_upd reset_permissions_def path_def io_bind_def
      io_return_def baseline_def allowed_def set_flags_FT CONTAINER_INHERIT_ACE_def
      OBJECT_INHERIT_ACE_def)

section \<open>Stripping a principal\<close>

lemma reset_user_permissions_case:
  "reset_user_permissions env p user s =
     (case s p of
        None \<Rightarrow> (Inl Win32Error, s)
      | Some sd \<Rightarrow>
          if strip_succeeds env user (sd_dacl sd)
          then (Inr (sd\<lparr>sd_dacl := stripped env user (sd_dacl sd)\<rparr>),
                s(p \<mapsto> sd\<lparr>sd_dacl := stripped env user (sd_dacl sd)\<rparr>))
          else (Inl Win32Error, s))"
  by (simp add: reset_user_permissions_at reset_user_permissions_missing split: option.split)

lemma stripped_idem: "stripped env user (stripped env user dacl) = stripped env user dacl"
  by (simp add: stripped_def)

lemma strip_succeeds_stripped:
  "strip_succeeds env user dacl \<Longrightarrow> strip_succeeds env user (stripped env user dacl)"
  by (auto simp: strip_succeeds_def all_resolve_stripped) (simp add: stripped_def)

lemma stripped_none: "entries_for env user dacl = [] \<Longrightarrow> stripped env user dacl = dacl"
  by (simp add: entries_for_def stripped_def filter_empty_conv)

lemma stripped_own: "filter (\<lambda>a. ace_sid a = user) (stripped env user dacl) = []"
  by (auto simp: stripped_def matches_def filter_empty_conv)

text \<open>
  \<^bold>\<open>C7, as stated, fails.\<close> On the sample system the old and the new identifier of
  \<open>students\<close> are different identities that resolve to one account. Stripping the new
  one removes the entry that carries the old one.
\<close>

theorem strip_other_identifier_counterexample:
  "students_old_sid \<noteq> students_sid \<and>
   reset_user_permissions example_env ''C:/a'' students_sid
     [''C:/a'' \<mapsto> \<lparr>sd_protected = False,
                    sd_dacl = baseline @ [allowed 3 (perm_value READ) students_old_sid]\<rparr>] =
   (Inr \<lparr>sd_protected = False, sd_dacl = baseline\<rparr>,
    [''C:/a'' \<mapsto> \<lparr>sd_protected = False, sd_dacl = baseline\<rparr>])"
  by (simp add: reset_user_permissions_upd strip_succeeds_def all_resolve_def stripped_def
      matches_def baseline_def allowed_def example_env_def example_accounts_def
      students_sid_def students_old_sid_def NT_AUTHORITY_def ADMINS_def EVERYONE_def)

text \<open>
  \<^bold>\<open>C7, amended.\<close> On an existing path the strip removes exactly the entries whose
  identifier resolves to the same account (name, domain and type) as the identifier of
  the principal, and keeps the others in their order. No entry that carries the
  identifier of the principal is left, whatever the account is called at the time. The
  strip raises and writes nothing when the list is not empty and the identifier of the
  principal or of some entry has no account.
\<close>

theorem strip_by_account:
  "reset_user_permissions env p user (s(p \<mapsto> sd)) =
     (if strip_succeeds env user (sd_dacl sd)
      then (Inr (sd\<lparr>sd_dacl := filter (\<lambda>a. \<not> matches env user a) (sd_dacl sd)\<rparr>),
            s(p \<mapsto> sd\<lparr>sd_dacl := filter (\<lambda>a. \<not> matches env user a) (sd_dacl sd)\<rparr>))
      else (Inl Win32Error, s(p \<mapsto> sd))) \<and>
   filter (\<lambda>a. ace_sid a = user) (filter (\<lambda>a. \<not> matches env user a) (sd_dacl sd)) = [] \<and>
   matches env user a = (LookupAccountSid env (ace_sid a) = LookupAccountSid env user) \<and>
   strip_succeeds env user (sd_dacl sd) =
     (sd_dacl sd = [] \<or>
      LookupAccountSid env user \<noteq> None \<and>
      list_all (\<lambda>a. LookupAccountSid env (ace_sid a) \<noteq> None) (sd_dacl sd))"
  using stripped_own [of user env "sd_dacl sd"]
  by (simp add: reset_user_permissions_upd stripped_def matches_def strip_succeeds_def
      all_resolve_def)

text \<open>
  \<^bold>\<open>C8, as stated, fails.\<close> On the sample system a path carries, next to the baseline,
  an entry of a deleted account. The group of everyone has no entry there, and stripping
  it raises instead of doing nothing.
\<close>

theorem strip_absent_raises_counterexample:
  "entries_for example_env EVERYONE (baseline @ [allowed 3 (perm_value READ) deleted_sid]) = [] \<and>
   reset_user_permissions example_env ''C:/a'' EVERYONE
     [''C:/a'' \<mapsto> \<lparr>sd_protected = False,
                    sd_dacl = baseline @ [allowed 3 (perm_value READ) deleted_sid]\<rparr>] =
   (Inl Win32Error,
    [''C:/a'' \<mapsto> \<lparr>sd_protected = False,
                    sd_dacl = baseline @ [allowed 3 (perm_value READ) deleted_sid]\<rparr>])"
  by (simp add: reset_user_permissions_upd strip_succeeds_def all_resolve_def entries_for_def
      matches_def baseline_def allowed_def example_env_def example_accounts_def
      students_sid_def students_old_sid_def deleted_sid_def NT_AUTHORITY_def ADMINS_def
      EVERYONE_def)

lemma strip_twice_store:
  "snd (reset_user_permissions env p user (snd (reset_user_permissions env p user s))) =
   snd (reset_user_permissions env p user s)"
proof (cases "s p")
  case None
  then show ?thesis by (simp add: reset_user_permissions_missing)
next
  case (Some sd)
  show ?thesis
  proof (cases "strip_succeeds env user (sd_dacl sd)")
    case False
    with Some show ?thesis by (simp add: reset_user_permissions_at)
  next
    case True
    with Some have 1: "reset_user_permissions env p user s =
        (Inr (sd\<lparr>sd_dacl := stripped env user (sd_dacl sd)\<rparr>),
         s(p \<mapsto> sd\<lparr>sd_dacl := stripped env user (sd_dacl sd)\<rparr>))"
      by (simp add: reset_user_permissions_at)
    show ?thesis
      unfolding 1 snd_conv
      using strip_succeeds_stripped [OF True]
      by (simp add: reset_user_permissions_upd stripped_idem)
  qed
qed

text \<open>
  \<^bold>\<open>C8, amended.\<close> A second strip right after the first leaves every descriptor as the
  first left it, and returns what the first returned when that one succeeded. Stripping
  a principal to whose account no entry resolves leaves the store as it was and
  succeeds, provided the lookups of the loop succeed; when they do not, the strip raises
  and the store is as it was.
\<close>

theorem strip_idempotent:
  "snd (reset_user_permissions env p user (snd (reset_user_permissions env p user s))) =
     snd (reset_user_permissions env p user s) \<and>
   (fst (reset_user_permissions env p user s) = Inr sd' \<longrightarrow>
      reset_user_permissions env p user (snd (reset_user_permissions env p user s)) =
        (Inr sd', snd (reset_user_permissions env p user s))) \<and>
   (strip_succeeds env user (sd_dacl sd) \<and> entries_for env user (sd_dacl sd) = [] \<longrightarrow>
      reset_user_permissions env p user (s(p \<mapsto> sd)) = (Inr sd, s(p \<mapsto> sd))) \<and>
   (\<not> strip_succeeds env user (sd_dacl sd) \<longrightarrow>
      reset_user_permissions env p user (s(p \<mapsto> sd)) = (Inl Win32Error, s(p \<mapsto> sd)))"
proof (intro conjI impI)
  show "snd (reset_user_permissions env p user (snd (reset_user_permissions env p user s))) =
     snd (reset_user_permissions env p user s)"
    by (rule strip_twice_store)
next
  assume a: "fst (reset_user_permissions env p user s) = Inr sd'"
  then obtain sd where sd: "s p = Some sd" and ok: "strip_succeeds env user (sd_dacl sd)"
    and sd': "sd' = sd\<lparr>sd_dacl := stripped env user (sd_dacl sd)\<rparr>"
    by (auto simp: reset_user_permissions_case split: option.splits if_splits)
  have 1: "reset_user_permissions env p user s = (Inr sd', s(p \<mapsto> sd'))"
    using sd ok sd' by (simp add: reset_user_permissions_at)
  show "reset_user_permissions env p user (snd (reset_user_permissions env p user s)) =
        (Inr sd', snd (reset_user_permissions env p user s))"
    unfolding 1 snd_conv using strip_succeeds_stripped [OF ok] sd'
    by (simp add: reset_user_permissions_upd stripped_idem)
next
  assume "strip_succeeds env user (sd_dacl sd) \<and> entries_for env user (sd_dacl sd) = []"
  then show "reset_user_permissions env p user (s(p \<mapsto> sd)) = (Inr sd, s(p \<mapsto> sd))"
    by (simp add: reset_user_permissions_upd stripped_none)
next
  assume "\<not> strip_succeeds env user (sd_dacl sd)"
  then show "reset_user_permissions env p user (s(p \<mapsto> sd)) = (Inl Win32Error, s(p \<mapsto> sd))"
    by (simp add: reset_user_permissions_upd)
qed

lemma example_no_entries_everyone:
  "entries_for example_env EVERYONE (sd_dacl example_sd) = []"
  by (simp add: entries_for_def matches_def example_sd_def baseline_def allowed_def
      example_env_def example_accounts_def NT_AUTHORITY_def ADMINS_def EVERYONE_def)

text \<open>
  The statement on the sample system: the group of everyone on the sample directory.
\<close>

theorem strip_idempotent_witness:
  "strip_succeeds example_env EVERYONE (sd_dacl example_sd) \<and>
   entries_for example_env EVERYONE (sd_dacl example_sd) = [] \<and>
   reset_user_permissions example_env ''C:/a'' EVERYONE example_store =
     (Inr example_sd, example_store) \<and>
   reset_user_permissions example_env ''C:/a'' EVERYONE
     (snd (reset_user_permissions example_env ''C:/a'' EVERYONE example_store)) =
     (Inr example_sd, example_store)"
proof -
  have ok: "strip_succeeds example_env EVERYONE (sd_dacl example_sd)"
    using example_all_resolve_everyone by (simp add: strip_succeeds_def)
  note t = strip_idempotent [of example_env "''C:/a''" EVERYONE example_store example_sd
      example_sd]
  have st: "example_store(''C:/a'' \<mapsto> example_sd) = example_store"
    by (simp add: example_store_def)
  from t ok example_no_entries_everyone
  have 1: "reset_user_permissions example_env ''C:/a'' EVERYONE example_store =
     (Inr example_sd, example_store)"
    unfolding st by blast
  then have "fst (reset_user_permissions example_env ''C:/a'' EVERYONE example_store) =
     Inr example_sd" by simp
  with t have 2: "reset_user_permissions example_env ''C:/a'' EVERYONE
     (snd (reset_user_permissions example_env ''C:/a'' EVERYONE example_store)) =
     (Inr example_sd, snd (reset_user_permissions example_env ''C:/a'' EVERYONE example_store))"
    by blast
  show ?thesis using ok example_no_entries_everyone 1 2 by simp
qed

section \<open>\<^verbatim>\<open>give_permission\<close> on a tree\<close>

lemma example_walk:
  "list_subdirectories_recurs example_env ''C:/a'' =
     [''C:/a/b'', ''C:/a/1.txt'', ''C:/a/2.txt'', ''C:/a/b/3.txt'']"
  by (simp add: list_subdirectories_recurs_def os_walk_def example_env_def)

lemma io_bind_unit: "io_bind (m :: unit io) io_return = m"
  by (rule ext) (simp add: io_bind_def io_return_def split: prod.split sum.split)

lemma give_permission_recursive:
  assumes "level \<noteq> DELETE" "level \<noteq> MODIFY_PROTECTED"
  shows "give_permission env \<lparr>priv_path = Some root\<rparr> name (Member level) True =
     io_bind (priv_get_user_or_group_pysid env name)
       (\<lambda>user. for_each (\<lambda>target. reset_user_permissions env target user)
                 (list_subdirectories_recurs env root))"
  using assms
  by (cases level) (simp_all add: give_permission_def not_in_Permissions_def path_def io_bind_unit)

lemma example_name_students: "LookupAccountName example_env ''students'' = Some students_sid"
  by (simp add: example_env_def example_names_def)

lemma example_strip_baseline:
  "strip_succeeds example_env students_sid baseline \<and>
   stripped example_env students_sid baseline = baseline"
  by (simp add: strip_succeeds_def all_resolve_def stripped_def matches_def baseline_def
      allowed_def example_env_def example_accounts_def students_sid_def
      NT_AUTHORITY_def ADMINS_def EVERYONE_def)

lemma example_strip_granted:
  "strip_succeeds example_env students_sid
     (baseline @ [allowed 3 m students_sid]) \<and>
   stripped example_env students_sid
     (baseline @ [allowed 3 m students_sid]) = baseline"
  by (simp add: strip_succeeds_def all_resolve_def stripped_def matches_def baseline_def
      allowed_def example_env_def example_accounts_def students_sid_def
      NT_AUTHORITY_def ADMINS_def EVERYONE_def)

text \<open>
  \<^bold>\<open>C1, on the code.\<close> The sample directory \<^verbatim>\<open>C:/a\<close> holds \<^verbatim>\<open>1.txt\<close>, \<^verbatim>\<open>2.txt\<close> and
  \<^verbatim>\<open>b/3.txt\<close>. The walk yields the sub-directory and the three files, and not the
  directory itself. A recursive \<^verbatim>\<open>give_permission\<close> of \<open>READ\<close> to \<open>students\<close> returns
  normally. Afterwards each of the five objects carries the two baseline entries and
  nothing else: the earlier entry of \<open>students\<close> on \<^verbatim>\<open>1.txt\<close> is stripped, and no entry
  that allows \<open>READ\<close> is added anywhere, because the generator in \<^verbatim>\<open>targets\<close> is used up
  by the loop that strips and the loop that grants finds it empty.
\<close>

theorem recursive_read_grants_nothing:
  "list_subdirectories_recurs example_env ''C:/a'' =
     [''C:/a/b'', ''C:/a/1.txt'', ''C:/a/2.txt'', ''C:/a/b/3.txt''] \<and>
   fst (give_permission example_env \<lparr>priv_path = Some ''C:/a''\<rparr> ''students'' (Member READ) True
          example_tree_store) = Inr () \<and>
   map (\<lambda>p. map_option sd_dacl
              (snd (give_permission example_env \<lparr>priv_path = Some ''C:/a''\<rparr> ''students''
                      (Member READ) True example_tree_store) p))
       [''C:/a'', ''C:/a/b'', ''C:/a/1.txt'', ''C:/a/2.txt'', ''C:/a/b/3.txt''] =
     [Some baseline, Some baseline, Some baseline, Some baseline, Some baseline]"
proof -
  have g: "give_permission example_env \<lparr>priv_path = Some ''C:/a''\<rparr> ''students'' (Member READ) True
          example_tree_store =
        for_each (\<lambda>target. reset_user_permissions example_env target students_sid)
          [''C:/a/b'', ''C:/a/1.txt'', ''C:/a/2.txt'', ''C:/a/b/3.txt''] example_tree_store"
    by (simp add: give_permission_recursive priv_get_user_or_group_pysid_def
        example_name_students io_bind_def io_return_def example_walk)
  have r: "for_each (\<lambda>target. reset_user_permissions example_env target students_sid)
          [''C:/a/b'', ''C:/a/1.txt'', ''C:/a/2.txt'', ''C:/a/b/3.txt''] example_tree_store =
        (Inr (), example_tree_store
           (''C:/a/b'' \<mapsto> example_sd, ''C:/a/1.txt'' \<mapsto> example_sd,
            ''C:/a/2.txt'' \<mapsto> example_sd, ''C:/a/b/3.txt'' \<mapsto> example_sd))"
    by (simp add: io_bind_def io_return_def reset_user_permissions_case example_tree_store_def
        example_sd_def example_strip_baseline example_strip_granted)
  show ?thesis
    unfolding g r by (simp add: example_walk example_tree_store_def example_sd_def)
qed

section \<open>The constructor and the path\<close>


lemma Directory_init_Str:
  "Directory_init env (Str p) reset_perms s =
     io_bind (if os_path_abspath env p \<notin> dom s then create_dir env (os_path_abspath env p)
              else io_return ())
       (\<lambda>_. io_bind (if reset_perms
                      then reset_permissions env \<lparr>priv_path = Some (os_path_abspath env p)\<rparr> False
                      else io_return ())
               (\<lambda>_. io_return \<lparr>priv_path = Some (os_path_abspath env p)\<rparr>)) s"
  by (simp add: Directory_init_def abspath_def path_setter_def path_def file_or_dir_exists_def)




text \<open>
  \<^bold>\<open>C10.\<close> The setter raises \<open>NotAValidPath\<close> exactly for the values that are no
  string. A string is stored; any other value leaves the object as it was. A
  constructor that returns was given a string, and the path of its object is that
  string made absolute by \<^verbatim>\<open>os.path.abspath\<close>.
\<close>

theorem path_is_a_string:
  "(fst (path_setter self v) = Inl NotAValidPath) = (\<forall>p. v \<noteq> Str p) \<and>
   path_setter self (Str p) = (Inr (), self\<lparr>priv_path := Some p\<rparr>) \<and>
   ((\<forall>p. v \<noteq> Str p) \<longrightarrow> path_setter self v = (Inl NotAValidPath, self)) \<and>
   (Directory_init env v reset_perms s = (Inr d, s') \<longrightarrow>
      (\<exists>p. v = Str p \<and> priv_path d = Some (os_path_abspath env p) \<and>
           path d = Inr (os_path_abspath env p)))"
proof (intro conjI impI)
  show "(fst (path_setter self v) = Inl NotAValidPath) = (\<forall>p. v \<noteq> Str p)"
    by (cases v) (simp_all add: path_setter_def)
  show "path_setter self (Str p) = (Inr (), self\<lparr>priv_path := Some p\<rparr>)"
    by (simp add: path_setter_def)
  show "path_setter self v = (Inl NotAValidPath, self)" if "\<forall>p. v \<noteq> Str p"
    using that by (cases v) (simp_all add: path_setter_def)
  show "\<exists>p. v = Str p \<and> priv_path d = Some (os_path_abspath env p) \<and>
           path d = Inr (os_path_abspath env p)"
    if "Directory_init env v reset_perms s = (Inr d, s')"
  proof (cases v)
    case (Str p)
    with that have "d = \<lparr>priv_path = Some (os_path_abspath env p)\<rparr>"
      by (auto simp: Directory_init_Str io_bind_def io_return_def
          split: prod.splits sum.splits if_splits)
    with Str show ?thesis by (simp add: path_def)
  next
    case (Bytes b)
    with that show ?thesis
      by (simp add: Directory_init_def abspath_def path_setter_def io_raise_def)
  next
    case NoneVal
    with that show ?thesis by (simp add: Directory_init_def abspath_def io_raise_def)
  next
    case (IntVal i)
    with that show ?thesis by (simp add: Directory_init_def abspath_def io_raise_def)
  qed
qed

text \<open>
  The statement on the sample system: \<^verbatim>\<open>None\<close> assigned to an object, and an object
  constructed for the sample directory.
\<close>

theorem path_is_a_string_witness:
  "path_setter \<lparr>priv_path = Some ''C:/a''\<rparr> NoneVal =
     (Inl NotAValidPath, \<lparr>priv_path = Some ''C:/a''\<rparr>) \<and>
   Directory_init example_env (Str ''C:/a'') False example_store =
     (Inr \<lparr>priv_path = Some ''C:/a''\<rparr>, example_store) \<and>
   path \<lparr>priv_path = Some ''C:/a''\<rparr> = Inr ''C:/a''"
proof -
  define old where "old = ''C:/a''"
  have a: "os_path_abspath example_env old = old" by (simp add: example_env_def)
  have i: "Directory_init example_env (Str old) False example_store =
     (Inr \<lparr>priv_path = Some old\<rparr>, example_store)"
    by (simp add: Directory_init_Str io_bind_def io_return_def a)
       (simp add: example_store_def old_def)
  have n: "\<forall>p. NoneVal \<noteq> Str p" by simp
  note t1 = path_is_a_string [of "\<lparr>priv_path = Some old\<rparr>" NoneVal]
  have 1: "path_setter \<lparr>priv_path = Some old\<rparr> NoneVal =
     (Inl NotAValidPath, \<lparr>priv_path = Some old\<rparr>)"
    using t1 n by blast
  note t2 = path_is_a_string [of _ "Str old" _ example_env False example_store
      "\<lparr>priv_path = Some old\<rparr>" example_store]
  have "\<exists>p. Str old = Str p \<and>
          priv_path \<lparr>priv_path = Some old\<rparr> = Some (os_path_abspath example_env p) \<and>
          path \<lparr>priv_path = Some old\<rparr> = Inr (os_path_abspath example_env p)"
    using t2 i by blast
  then have 2: "path \<lparr>priv_path = Some old\<rparr> = Inr old"
    using a by auto
  show ?thesis using 1 i 2 unfolding old_def by (intro conjI)
qed

end
